theory Spec2Isabelle
  imports Complex_Main "HOL-Library.Multiset"
begin

section \<open>JavaScript values used by the OCR bridge\<close>

text \<open>
  A JavaScript number is an IEEE double. The bridge only compares numbers, tests them
  with \<open>isNaN\<close> and subtracts them inside a sort comparator, so a number is modelled by
  its kind: \<open>NaN\<close>, one of the two infinities, or a finite value. Finite values are
  reals; the two zeros are one value, as they are for \<open>===\<close>, \<open>!==\<close> and the sign test
  of the comparator.
\<close>

datatype jsnum = NaN | NegInfinity | Num real | Infinity

datatype jsval = JUndefined | JNull | JBool bool | JNumber jsnum | JString string

datatype error = TypeError

text \<open>The global function \<open>isNaN\<close> on a number.\<close>

fun isNaN :: "jsnum \<Rightarrow> bool" where
  "isNaN NaN = True"
| "isNaN _ = False"

text \<open>\<open>a !== b\<close> on numbers: \<open>NaN\<close> differs from everything, itself included.\<close>

definition strict_neq :: "jsnum \<Rightarrow> jsnum \<Rightarrow> bool" where
  "strict_neq a b = (isNaN a \<or> isNaN b \<or> a \<noteq> b)"

text \<open>
  \<open>a - b\<close> on numbers. On two finite values the double result is the rounded difference;
  rounding keeps the sign (and a difference of two distinct doubles is never zero), and the
  sign is all that the sort reads, so the difference is taken exactly.
\<close>

fun num_sub :: "jsnum \<Rightarrow> jsnum \<Rightarrow> jsnum" where
  "num_sub NaN _ = NaN"
| "num_sub _ NaN = NaN"
| "num_sub Infinity Infinity = NaN"
| "num_sub NegInfinity NegInfinity = NaN"
| "num_sub Infinity _ = Infinity"
| "num_sub NegInfinity _ = NegInfinity"
| "num_sub (Num a) Infinity = NegInfinity"
| "num_sub (Num a) NegInfinity = Infinity"
| "num_sub (Num a) (Num b) = Num (a - b)"

text \<open>
  \<open>Array.prototype.sort\<close> reads the comparator's result \<open>v\<close> as: \<open>NaN\<close> counts as \<open>+0\<close>;
  \<open>v > 0\<close> puts the second argument first.
\<close>

fun positive :: "jsnum \<Rightarrow> bool" where
  "positive Infinity = True"
| "positive (Num r) = (0 < r)"
| "positive _ = False"

text \<open>
  \<open>Array.prototype.sort(comparefn)\<close> is a stable sort. It is modelled by a stable
  insertion sort driven by the comparator: an element moves behind exactly the elements
  it compares greater than. For a consistent comparator every stable sort returns this
  list.
\<close>

fun insert_by :: "('a \<Rightarrow> 'a \<Rightarrow> jsnum) \<Rightarrow> 'a \<Rightarrow> 'a list \<Rightarrow> 'a list" where
  "insert_by c a [] = [a]"
| "insert_by c a (b # bs) = (if positive (c a b) then b # insert_by c a bs else a # b # bs)"

fun js_sort :: "('a \<Rightarrow> 'a \<Rightarrow> jsnum) \<Rightarrow> 'a list \<Rightarrow> 'a list" where
  "js_sort c [] = []"
| "js_sort c (a # as) = insert_by c a (js_sort c as)"


section \<open>The OCR result normalizer (\<open>startOCR\<close>, lines 88 to 100)\<close>

text \<open>
  \<open>IOcrResultItem\<close>. The fields carry the prefix \<open>r_\<close>: \<open>text\<close> is a keyword of Isabelle
  and one-letter field names would capture the variables \<open>x\<close> and \<open>y\<close>.
\<close>

record region =
  r_text :: string
  r_x :: jsnum
  r_y :: jsnum
  r_width :: jsnum
  r_height :: jsnum

text \<open>
  The \<open>data\<close> field of a response arrives from another frame and is typed \<open>any\<close>. It is
  a falsy value (absent, \<open>null\<close>, \<open>0\<close>, the empty string), a truthy value that is not an
  array and so has no \<open>filter\<close> method, or an array. An array element is \<open>null\<close> or
  \<open>undefined\<close> (\<open>None\<close>), or an object whose \<open>x\<close> and \<open>y\<close> are numbers, as
  \<open>IOcrResultItem\<close> declares them. Left out are typed arrays, which have a \<open>filter\<close>
  of their own, and elements whose \<open>x\<close> or \<open>y\<close> is not a number.
\<close>

datatype payload = Falsy | NonArray | Array "region option list"

text \<open>
  \<open>ocrResult.filter(item => !isNaN(item.x) && !isNaN(item.y))\<close>: the callback on an
  object is \<open>retained\<close>; reading \<open>item.x\<close> of \<open>null\<close> or \<open>undefined\<close> throws a
  \<open>TypeError\<close>, at the first such element.
\<close>

definition retained :: "region \<Rightarrow> bool" where
  "retained item = (\<not> isNaN (r_x item) \<and> \<not> isNaN (r_y item))"

fun filter_regions :: "region option list \<Rightarrow> error + region list" where
  "filter_regions [] = Inr []"
| "filter_regions (None # items) = Inl TypeError"
| "filter_regions (Some item # items) =
     (case filter_regions items of
        Inl e \<Rightarrow> Inl e
      | Inr result \<Rightarrow> Inr (if retained item then item # result else result))"

text \<open>The comparator of lines 91 to 96.\<close>

definition compare_regions :: "region \<Rightarrow> region \<Rightarrow> jsnum" where
  "compare_regions a b =
     (if strict_neq (r_y a) (r_y b) then num_sub (r_y a) (r_y b)
      else num_sub (r_x a) (r_x b))"

text \<open>The body of the \<open>try\<close> block: it returns the sorted list or throws.\<close>

definition filter_and_sort :: "payload \<Rightarrow> error + region list" where
  "filter_and_sort ocrResult =
     (case ocrResult of
        Falsy \<Rightarrow> Inl TypeError
      | NonArray \<Rightarrow> Inl TypeError
      | Array items \<Rightarrow>
          (case filter_regions items of
             Inl e \<Rightarrow> Inl e
           | Inr result \<Rightarrow> Inr (js_sort compare_regions result)))"

text \<open>
  An envelope is the object carried by a \<open>message\<close> event that the listener reads; a
  request promise resolves with the whole envelope.
\<close>

record envelope =
  e_key :: jsval
  e_requestId :: jsval
  e_type :: jsval
  e_data :: payload

text \<open>
  What \<open>await this.sendMessage(...)\<close> yields: \<open>undefined\<close>, or the envelope that resolved
  the request promise. An envelope is an object, hence truthy.
\<close>

datatype awaited = Undefined | Envelope envelope

fun truthy :: "awaited \<Rightarrow> bool" where
  "truthy Undefined = False"
| "truthy (Envelope e) = True"

text \<open>Line 88: \<open>res?.data || []\<close>.\<close>

definition ocrResult_of :: "awaited \<Rightarrow> payload" where
  "ocrResult_of res =
     (case res of
        Undefined \<Rightarrow> Array []
      | Envelope e \<Rightarrow> (case e_data e of Falsy \<Rightarrow> Array [] | _ \<Rightarrow> e_data e))"

text \<open>
  Lines 89 to 100: the \<open>try\<close> block and its empty \<open>catch\<close>, after which the function
  falls off its end, so that its value is \<open>undefined\<close> (\<open>None\<close>).
\<close>

definition post_process :: "payload \<Rightarrow> region list option" where
  "post_process ocrResult =
     (case filter_and_sort ocrResult of
        Inl e \<Rightarrow> None
      | Inr result \<Rightarrow> Some result)"


section \<open>The editor wrapper's imperative handle (\<open>editor.tsx\<close>, lines 158 to 193)\<close>

text \<open>
  The hosted editor is a third-party object. What the handle reads from it is given by
  two functions; what the handle does to it, and to the iframe, is the list of calls it
  makes, in order.
\<close>

record lake_editor =
  getDocument :: "string \<Rightarrow> string"
  queryCommandValue :: "string \<Rightarrow> bool"

datatype call =
    ExecCommand string "string list"
  | KernelPaste string
  | SetDocument string string
  | IframeFocus

text \<open>The state \<open>editor\<close> is \<open>null\<close> (\<open>None\<close>) until the hosted editor has been created.\<close>

definition appendContent :: "lake_editor option \<Rightarrow> bool \<Rightarrow> string \<Rightarrow> bool \<Rightarrow> call list" where
  "appendContent editor iframe_current html breakLine =
     (case editor of
        None \<Rightarrow> []
      | Some ed \<Rightarrow>
          (if breakLine then [ExecCommand ''breakLine'' []] else [])
          @ [KernelPaste html]
          @ (if iframe_current then [IframeFocus] else [])
          @ [ExecCommand ''focus'' [''end'']])"

definition setContent :: "lake_editor option \<Rightarrow> bool \<Rightarrow> string \<Rightarrow> call list" where
  "setContent editor iframe_current html =
     (case editor of
        None \<Rightarrow> []
      | Some ed \<Rightarrow>
          (if iframe_current then [IframeFocus] else [])
          @ [SetDocument ''text/html'' html, ExecCommand ''focus'' [''end'']])"

definition isEmpty :: "lake_editor option \<Rightarrow> bool" where
  "isEmpty editor =
     (case editor of None \<Rightarrow> True | Some ed \<Rightarrow> queryCommandValue ed ''isEmpty'')"

definition getContent :: "lake_editor option \<Rightarrow> string \<Rightarrow> string" where
  "getContent editor type =
     (case editor of
        None \<Rightarrow> ''''
      | Some ed \<Rightarrow>
          if type = ''lake'' then getDocument ed ''text/lake''
          else if type = ''text/html'' then getDocument ed ''text/html''
          else getDocument ed ''description'')"


section \<open>The bridge host (\<open>OCRManager\<close>): state\<close>

text \<open>
  \<open>event.data\<close> is any value another window posted: \<open>null\<close> or \<open>undefined\<close>, a primitive
  (whose property \<open>key\<close> reads as \<open>undefined\<close>), or an object.
\<close>

datatype event_data = DataNullish | DataPrimitive | DataObject envelope

datatype ocr_kind = KFile | KBlob | KUrl

text \<open>
  The \<open>data\<close> argument of a request: absent, or \<open>{type, content}\<close>, the content (a file,
  a blob or a URL) being opaque here.
\<close>

datatype request_data = NoData | OcrInput ocr_kind string

text \<open>The object posted into the frame: \<open>{key, requestId, ...requestData}\<close>.\<close>

record request =
  q_key :: jsval
  q_requestId :: nat
  q_action :: string
  q_data :: request_data

record frame =
  f_src :: string
  f_id :: string
  f_display :: string

text \<open>A promise is pending or resolved; this module never rejects one.\<close>

datatype 'a promise = Pending | Resolved 'a

text \<open>Calling a promise's \<open>resolve\<close> function settles it the first time only.\<close>

fun resolve :: "'a \<Rightarrow> 'a promise \<Rightarrow> 'a promise" where
  "resolve v Pending = Resolved v"
| "resolve v (Resolved w) = Resolved w"

text \<open>
  Everything the module's functions read and write:
  \<^item> \<open>ocrProxyPage\<close>: the constant \<open>LinkHelper.ocrProxyPage\<close>, defined outside this file;
  \<^item> \<open>iframe\<close>: the field \<open>this.iframe\<close>, \<open>None\<close> while it is \<open>undefined\<close>;
  \<^item> \<open>body\<close>: the elements this module appended to \<open>document.body\<close>;
  \<^item> \<open>listening\<close>: whether \<open>messageFunc\<close> is registered on \<open>window\<close>;
  \<^item> \<open>timers\<close>: the delays, in milliseconds, of the timeouts set and not yet fired;
  \<^item> \<open>sendMessageRef\<close>: whether the field \<open>this.sendMessageRef\<close> holds the transport
    function (every installed function is the same closure over the same table);
  \<^item> \<open>resolveCache\<close>: the \<open>Map\<close> from request ids to callbacks; a callback is
    \<open>data => resolve1(data)\<close> and is named by the request promise that \<open>resolve1\<close> settles;
  \<^item> \<open>id_var\<close>: the variable \<open>id\<close> captured by \<open>getRequestID\<close>;
  \<^item> \<open>init_promise\<close>: the promise made by the first call of \<open>init\<close>;
  \<^item> \<open>promises\<close>: the promises made by the transport function, in creation order;
  \<^item> \<open>posted\<close>: the messages posted to the frame's content window, in order.
\<close>

record host =
  ocrProxyPage :: string
  iframe :: "frame option"
  body :: "frame list"
  listening :: bool
  timers :: "nat list"
  sendMessageRef :: bool
  resolveCache :: "jsval \<rightharpoonup> nat"
  id_var :: nat
  init_promise :: "bool promise"
  promises :: "envelope promise list"
  posted :: "request list"

definition key :: jsval where
  "key = JString ''ocr-message''"

definition ocrIframeId :: string where
  "ocrIframeId = ''yq-ocr-iframe-id''"

text \<open>The module as loaded, before any call.\<close>

definition initial :: "string \<Rightarrow> host" where
  "initial url =
     \<lparr>ocrProxyPage = url, iframe = None, body = [], listening = False, timers = [],
      sendMessageRef = False, resolveCache = Map.empty, id_var = 0,
      init_promise = Pending, promises = [], posted = []\<rparr>"


section \<open>The bridge host: operations\<close>

text \<open>
  \<open>id++\<close> on a double: integers up to \<open>2^53\<close> are exact, and \<open>2^53 + 1\<close> rounds back to
  \<open>2^53\<close> (as \<open>n + 1\<close> rounds to \<open>n\<close> for every larger double \<open>n\<close>).
\<close>

definition js_incr :: "nat \<Rightarrow> nat" where
  "js_incr n = (if n < 2 ^ 53 then n + 1 else n)"

definition getRequestID :: "host \<Rightarrow> nat \<times> host" where
  "getRequestID h = (let n = js_incr (id_var h) in (n, h\<lparr>id_var := n\<rparr>))"

text \<open>A request id as a key of the \<open>Map\<close>, whose keys are compared as JavaScript values.\<close>

definition id_key :: "nat \<Rightarrow> jsval" where
  "id_key n = JNumber (Num (real n))"

text \<open>
  The transport function installed in \<open>this.sendMessageRef\<close> (lines 48 to 62). Its value
  is the new promise, named by its index. The frame, once appended, is never detached, so
  its \<open>contentWindow\<close> exists.
\<close>

definition sendMessageRef_call :: "host \<Rightarrow> string \<Rightarrow> request_data \<Rightarrow> nat \<times> host" where
  "sendMessageRef_call h action data =
     (let p = length (promises h);
          h0 = h\<lparr>promises := promises h @ [Pending]\<rparr>;
          (requestId, h1) = getRequestID h0;
          h2 = h1\<lparr>resolveCache := (resolveCache h1)(id_key requestId \<mapsto> p)\<rparr>;
          h3 = (case iframe h2 of
                  None \<Rightarrow> h2
                | Some f \<Rightarrow>
                    h2\<lparr>posted := posted h2 @
                      [\<lparr>q_key = key, q_requestId = requestId, q_action = action,
                        q_data = data\<rparr>]\<rparr>)
      in (p, h3))"

text \<open>
  \<open>sendMessage\<close> (lines 107 to 115): \<open>None\<close> is the value \<open>undefined\<close> of the bare
  \<open>return\<close>, \<open>Some p\<close> the promise the transport function returned.
\<close>

definition sendMessage :: "host \<Rightarrow> string \<Rightarrow> request_data \<Rightarrow> nat option \<times> host" where
  "sendMessage h action data =
     (if \<not> sendMessageRef h then (None, h)
      else (let (p, h') = sendMessageRef_call h action data in (Some p, h')))"

text \<open>Calling the callback stored for promise \<open>p\<close>: \<open>resolve1(data)\<close>.\<close>

definition invoke :: "nat \<Rightarrow> envelope \<Rightarrow> host \<Rightarrow> host" where
  "invoke p data h = h\<lparr>promises := (promises h)[p := resolve data (promises h ! p)]\<rparr>"

text \<open>
  The listener \<open>messageFunc\<close> (lines 41 to 65). Reading \<open>event.data.key\<close> throws when
  \<open>event.data\<close> is \<open>null\<close> or \<open>undefined\<close>.
\<close>

definition messageFunc :: "host \<Rightarrow> event_data \<Rightarrow> error + host" where
  "messageFunc h data =
     (case data of
        DataNullish \<Rightarrow> Inl TypeError
      | DataPrimitive \<Rightarrow> Inr h
      | DataObject e \<Rightarrow>
          if e_key e \<noteq> key then Inr h
          else
            (let h1 = (case resolveCache h (e_requestId e) of
                         Some p \<Rightarrow>
                           (invoke p e h)\<lparr>resolveCache := (resolveCache h)(e_requestId e := None)\<rparr>
                       | None \<Rightarrow> h);
                 h2 = (if e_type e = JString ''ocr-ready''
                       then h1\<lparr>sendMessageRef := True,
                               init_promise := resolve True (init_promise h1)\<rparr>
                       else h1)
             in Inr h2))"

text \<open>
  \<open>init\<close> (lines 28 to 74). An \<open>async\<close> function returns a promise: after the bare
  \<open>return\<close> one that is already resolved with \<open>undefined\<close>, otherwise one that follows the
  promise made here. The page is assumed to have a \<open>body\<close>.
\<close>

datatype init_result = InitUndefined | InitPromise

definition init :: "host \<Rightarrow> init_result \<times> host" where
  "init h =
     (case iframe h of
        Some f \<Rightarrow> (InitUndefined, h)
      | None \<Rightarrow>
          (let f = \<lparr>f_src = ocrProxyPage h, f_id = ocrIframeId, f_display = ''none''\<rparr>
           in (InitPromise,
               h\<lparr>iframe := Some f, body := body h @ [f], resolveCache := Map.empty,
                 init_promise := Pending, timers := timers h @ [1000 * 30],
                 listening := True\<rparr>)))"

text \<open>The oldest pending timeout fires: \<open>resolve(false)\<close> (lines 68 to 70).\<close>

definition timeout :: "host \<Rightarrow> host" where
  "timeout h =
     (case timers h of
        [] \<Rightarrow> h
      | d # ds \<Rightarrow> h\<lparr>timers := ds, init_promise := resolve False (init_promise h)\<rparr>)"

text \<open>
  A \<open>message\<close> event reaches \<open>messageFunc\<close> only once it is registered; an exception
  thrown by a listener is reported by the browser and changes nothing.
\<close>

definition on_message :: "host \<Rightarrow> event_data \<Rightarrow> host" where
  "on_message h data =
     (if listening h
      then (case messageFunc h data of Inl e \<Rightarrow> h | Inr h' \<Rightarrow> h')
      else h)"

text \<open>
  JavaScript runs one task at a time. A history of the page is a sequence of events, each
  of them run to completion: a call of \<open>init\<close>, a call of \<open>sendMessage\<close>, a \<open>message\<close>
  event, the timeout.
\<close>

datatype event =
    CallInit
  | CallSendMessage string request_data
  | Message event_data
  | Timeout

fun step :: "host \<Rightarrow> event \<Rightarrow> host" where
  "step h CallInit = snd (init h)"
| "step h (CallSendMessage action data) = snd (sendMessage h action data)"
| "step h (Message data) = on_message h data"
| "step h Timeout = timeout h"

definition run :: "host \<Rightarrow> event list \<Rightarrow> host" where
  "run h es = foldl step h es"


section \<open>\<open>startOCR\<close> (lines 76 to 101)\<close>

text \<open>The state of the promise that \<open>sendMessage\<close> returned, as an \<open>await\<close> sees it.\<close>

definition await :: "host \<Rightarrow> nat option \<Rightarrow> awaited promise" where
  "await h r =
     (case r of
        None \<Rightarrow> Resolved Undefined
      | Some p \<Rightarrow>
          if p < length (promises h)
          then (case promises h ! p of Pending \<Rightarrow> Pending | Resolved e \<Rightarrow> Resolved (Envelope e))
          else Pending)"

text \<open>
  The function is suspended at its three \<open>await\<close>s. A task records where it waits and on
  what, or the value it returned: \<open>Some\<close> list, or \<open>None\<close> for \<open>undefined\<close>.
\<close>

datatype task =
    AwaitInit init_result
  | AwaitIsWebOcrReady "nat option"
  | AwaitStartOcr "nat option"
  | Returned "region list option"

text \<open>The call runs up to the first \<open>await\<close> (line 78).\<close>

definition startOCR :: "host \<Rightarrow> task \<times> host" where
  "startOCR h = (let (r, h') = init h in (AwaitInit r, h'))"

definition isWebOcrReady :: "host \<Rightarrow> nat option \<times> host" where
  "isWebOcrReady h = sendMessage h ''isWebOcrReady'' NoData"

text \<open>
  The task runs on when the promise it waits on is settled, up to the next \<open>await\<close> or
  to its \<open>return\<close>; otherwise nothing happens.
\<close>

fun resume :: "ocr_kind \<Rightarrow> string \<Rightarrow> host \<Rightarrow> task \<Rightarrow> task \<times> host" where
  "resume type content h (AwaitInit r) =
     (if r = InitUndefined \<or> init_promise h \<noteq> Pending
      then (let (p, h') = isWebOcrReady h in (AwaitIsWebOcrReady p, h'))
      else (AwaitInit r, h))"
| "resume type content h (AwaitIsWebOcrReady p) =
     (case await h p of
        Pending \<Rightarrow> (AwaitIsWebOcrReady p, h)
      | Resolved isReady \<Rightarrow>
          if \<not> truthy isReady then (Returned (Some []), h)
          else (let (q, h') = sendMessage h ''startOcr'' (OcrInput type content)
                in (AwaitStartOcr q, h')))"
| "resume type content h (AwaitStartOcr q) =
     (case await h q of
        Pending \<Rightarrow> (AwaitStartOcr q, h)
      | Resolved res \<Rightarrow>
          (Returned (post_process (ocrResult_of res)), h))"
| "resume type content h (Returned v) = (Returned v, h)"


section \<open>Notions of the specification\<close>

text \<open>A finite number: neither \<open>NaN\<close> nor an infinity.\<close>

fun is_finite :: "jsnum \<Rightarrow> bool" where
  "is_finite (Num r) = True"
| "is_finite _ = False"

text \<open>The order \<open><\<close> of JavaScript numbers.\<close>

fun num_less :: "jsnum \<Rightarrow> jsnum \<Rightarrow> bool" where
  "num_less NaN _ = False"
| "num_less _ NaN = False"
| "num_less NegInfinity NegInfinity = False"
| "num_less NegInfinity _ = True"
| "num_less _ NegInfinity = False"
| "num_less Infinity _ = False"
| "num_less (Num a) Infinity = True"
| "num_less (Num a) (Num b) = (a < b)"

text \<open>Reading order: ascending \<open>y\<close>, and ascending \<open>x\<close> where \<open>y\<close> is equal.\<close>

definition reading_order :: "region \<Rightarrow> region \<Rightarrow> bool" where
  "reading_order a b =
     (num_less (r_y a) (r_y b) \<or>
      (r_y a = r_y b \<and> (num_less (r_x a) (r_x b) \<or> r_x a = r_x b)))"


text \<open>
  An event that signals readiness: a \<open>message\<close> whose data is an object tagged with the
  bridge's key and of type \<open>"ocr-ready"\<close>.
\<close>

fun is_ready :: "event \<Rightarrow> bool" where
  "is_ready (Message (DataObject e)) = (e_key e = key \<and> e_type e = JString ''ocr-ready'')"
| "is_ready _ = False"

text \<open>
  Whichever fires first: the first event of a history that is a readiness signal
  (\<open>true\<close>) or the timeout (\<open>false\<close>); pending when there is neither.
\<close>

fun first_settled :: "event list \<Rightarrow> bool promise" where
  "first_settled [] = Pending"
| "first_settled (e # es) =
     (if is_ready e then Resolved True
      else if e = Timeout then Resolved False
      else first_settled es)"


section \<open>Invariants of the bridge host\<close>

text \<open>The document holds the frame of \<open>this.iframe\<close> and no other.\<close>

definition frames_ok :: "host \<Rightarrow> bool" where
  "frames_ok h = (body h = (case iframe h of None \<Rightarrow> [] | Some f \<Rightarrow> [f]))"




text \<open>Every key of the table and every id posted is an id handed out so far.\<close>

definition ids_ok :: "host \<Rightarrow> bool" where
  "ids_ok h =
     ((\<forall>k p. resolveCache h k = Some p \<longrightarrow> (\<exists>n. k = id_key n \<and> n \<le> id_var h)) \<and>
      (\<forall>q \<in> set (posted h). q_requestId q \<le> id_var h))"


section \<open>The normalizer: filtering and sorting\<close>

lemma filter_regions_Inr:
  "filter_regions items = Inr result \<Longrightarrow>
     None \<notin> set items \<and> result = filter retained (map the items)"
proof (induction items arbitrary: result rule: filter_regions.induct)
  case 1
  then show ?case by simp
next
  case (2 items)
  then show ?case by simp
next
  case (3 item items)
  then show ?case
    by (auto split: sum.splits if_splits)
qed

lemma mset_insert_by: "mset (insert_by c a bs) = add_mset a (mset bs)"
  by (induction bs) auto

lemma mset_js_sort: "mset (js_sort c as) = mset as"
  by (induction as) (auto simp: mset_insert_by)

lemma set_js_sort: "set (js_sort c as) = set as"
  by (metis mset_js_sort set_mset_mset)

text \<open>
  On retained regions the comparator is consistent: it is positive exactly when its
  arguments are out of reading order, and reading order is total and transitive.
\<close>

lemma positive_compare:
  "retained a \<Longrightarrow> retained b \<Longrightarrow> positive (compare_regions a b) = (\<not> reading_order a b)"
  unfolding retained_def compare_regions_def reading_order_def strict_neq_def
  by (cases "r_x a"; cases "r_x b"; cases "r_y a"; cases "r_y b") auto

lemma reading_order_total:
  "retained a \<Longrightarrow> retained b \<Longrightarrow> reading_order a b \<or> reading_order b a"
  unfolding retained_def reading_order_def
  by (cases "r_x a"; cases "r_x b"; cases "r_y a"; cases "r_y b") auto

lemma num_less_trans: "num_less a b \<Longrightarrow> num_less b c \<Longrightarrow> num_less a c"
  by (cases a; cases b; cases c) auto

lemma reading_order_trans:
  "reading_order a b \<Longrightarrow> reading_order b c \<Longrightarrow> reading_order a c"
  unfolding reading_order_def
  by (auto dest: num_less_trans)

lemma sorted_insert_by:
  assumes "retained a" "\<forall>b \<in> set bs. retained b" "sorted_wrt reading_order bs"
  shows "sorted_wrt reading_order (insert_by compare_regions a bs)"
  using assms
proof (induction bs)
  case Nil
  then show ?case by simp
next
  case (Cons b bs)
  show ?case
  proof (cases "positive (compare_regions a b)")
    case True
    then have ba: "reading_order b a"
      using Cons.prems positive_compare reading_order_total by auto
    have "\<forall>c \<in> set (insert_by compare_regions a bs). reading_order b c"
      using ba Cons.prems
      by (metis mset_insert_by set_mset_add_mset_insert set_mset_mset insert_iff sorted_wrt.simps(2))
    then show ?thesis using True Cons by simp
  next
    case False
    then have ab: "reading_order a b"
      using Cons.prems positive_compare by auto
    then have "\<forall>c \<in> set bs. reading_order a c"
      using Cons.prems reading_order_trans by auto
    then show ?thesis using False ab Cons.prems by simp
  qed
qed

lemma sorted_js_sort:
  "\<forall>a \<in> set as. retained a \<Longrightarrow> sorted_wrt reading_order (js_sort compare_regions as)"
  by (induction as) (auto simp: sorted_insert_by set_js_sort)

lemma post_process_Some:
  "post_process ocrResult = Some result \<Longrightarrow>
     \<exists>items. ocrResult = Array items \<and> None \<notin> set items \<and>
       result = js_sort compare_regions (filter retained (map the items))"
  unfolding post_process_def filter_and_sort_def
  by (auto split: payload.splits sum.splits dest: filter_regions_Inr)

text \<open>
  C3, as amended. Of the regions in the response's list, \<open>startOCR\<close> discards exactly
  those whose \<open>x\<close> or \<open>y\<close> is \<open>NaN\<close>: the list it returns holds the regions of the input
  whose \<open>x\<close> and \<open>y\<close> both pass \<open>isNaN\<close>, and so keeps a region with an infinite
  coordinate.
\<close>

theorem startOCR_discards_NaN_regions:
  "post_process (Array items) = Some result \<Longrightarrow>
     set result = {r. Some r \<in> set items \<and> \<not> isNaN (r_x r) \<and> \<not> isNaN (r_y r)}"
proof -
  assume "post_process (Array items) = Some result"
  then have n: "None \<notin> set items"
    and r: "result = js_sort compare_regions (filter retained (map the items))"
    by (auto dest: post_process_Some)
  have "set (map the items) = {r. Some r \<in> set items}"
  proof (intro equalityI subsetI)
    fix r assume "r \<in> set (map the items)"
    then obtain i where "i \<in> set items" "r = the i" by auto
    with n show "r \<in> {r. Some r \<in> set items}" by (cases i) auto
  next
    fix r assume "r \<in> {r. Some r \<in> set items}"
    then show "r \<in> set (map the items)" by force
  qed
  with r show ?thesis by (auto simp: set_js_sort retained_def)
qed

theorem startOCR_discards_NaN_regions_witness:
  "post_process (Array [Some \<lparr>r_text = ''a'', r_x = NaN, r_y = Num 3, r_width = Num 1, r_height = Num 1\<rparr>,
                        Some \<lparr>r_text = ''b'', r_x = Infinity, r_y = Num 0, r_width = Num 1, r_height = Num 1\<rparr>])
     = Some [\<lparr>r_text = ''b'', r_x = Infinity, r_y = Num 0, r_width = Num 1, r_height = Num 1\<rparr>]
   \<and> set [\<lparr>r_text = ''b'', r_x = Infinity, r_y = Num 0, r_width = Num 1, r_height = Num 1\<rparr>]
     = {r. Some r \<in> set [Some \<lparr>r_text = ''a'', r_x = NaN, r_y = Num 3, r_width = Num 1, r_height = Num 1\<rparr>,
                        Some \<lparr>r_text = ''b'', r_x = Infinity, r_y = Num 0, r_width = Num 1, r_height = Num 1\<rparr>]
          \<and> \<not> isNaN (r_x r) \<and> \<not> isNaN (r_y r)}"
proof -
  have p: "post_process (Array [Some \<lparr>r_text = ''a'', r_x = NaN, r_y = Num 3, r_width = Num 1, r_height = Num 1\<rparr>,
                        Some \<lparr>r_text = ''b'', r_x = Infinity, r_y = Num 0, r_width = Num 1, r_height = Num 1\<rparr>])
     = Some [\<lparr>r_text = ''b'', r_x = Infinity, r_y = Num 0, r_width = Num 1, r_height = Num 1\<rparr>]"
    by (simp add: post_process_def filter_and_sort_def retained_def)
  show ?thesis using p startOCR_discards_NaN_regions [OF p] by simp
qed

text \<open>
  C3, as stated, fails: a region whose \<open>x\<close> is \<open>Infinity\<close> is not finite, and \<open>startOCR\<close>
  returns it.
\<close>

theorem startOCR_keeps_infinite_region:
  "post_process (Array [Some \<lparr>r_text = ''b'', r_x = Infinity, r_y = Num 0, r_width = Num 1, r_height = Num 1\<rparr>])
     = Some [\<lparr>r_text = ''b'', r_x = Infinity, r_y = Num 0, r_width = Num 1, r_height = Num 1\<rparr>]
   \<and> \<not> is_finite (r_x \<lparr>r_text = ''b'', r_x = Infinity, r_y = Num 0, r_width = Num 1, r_height = Num 1\<rparr>)"
  by (simp add: post_process_def filter_and_sort_def retained_def)

text \<open>
  C4. The list \<open>startOCR\<close> returns is the retained regions, rearranged into ascending
  \<open>y\<close> and, for equal \<open>y\<close>, ascending \<open>x\<close>; on the regions
  \<open>[{x:5,y:10},{x:1,y:10},{x:0,y:5},{x:NaN,y:3}]\<close> it returns
  \<open>[{x:0,y:5},{x:1,y:10},{x:5,y:10}]\<close>, whatever their other fields.
\<close>

theorem startOCR_sorts_by_y_then_x:
  "(\<forall>items result. post_process (Array items) = Some result \<longrightarrow>
      sorted_wrt reading_order result \<and>
      mset result = mset (filter (\<lambda>r. \<not> isNaN (r_x r) \<and> \<not> isNaN (r_y r)) (map the items)))
   \<and> post_process (Array
        [Some \<lparr>r_text = t1, r_x = Num 5, r_y = Num 10, r_width = w1, r_height = h1\<rparr>,
         Some \<lparr>r_text = t2, r_x = Num 1, r_y = Num 10, r_width = w2, r_height = h2\<rparr>,
         Some \<lparr>r_text = t3, r_x = Num 0, r_y = Num 5, r_width = w3, r_height = h3\<rparr>,
         Some \<lparr>r_text = t4, r_x = NaN, r_y = Num 3, r_width = w4, r_height = h4\<rparr>])
     = Some
        [\<lparr>r_text = t3, r_x = Num 0, r_y = Num 5, r_width = w3, r_height = h3\<rparr>,
         \<lparr>r_text = t2, r_x = Num 1, r_y = Num 10, r_width = w2, r_height = h2\<rparr>,
         \<lparr>r_text = t1, r_x = Num 5, r_y = Num 10, r_width = w1, r_height = h1\<rparr>]"
proof (intro conjI allI impI)
  fix items result
  assume "post_process (Array items) = Some result"
  then have r: "result = js_sort compare_regions (filter retained (map the items))"
    by (auto dest: post_process_Some)
  show "sorted_wrt reading_order result"
    unfolding r by (rule sorted_js_sort) simp
  have "retained = (\<lambda>r. \<not> isNaN (r_x r) \<and> \<not> isNaN (r_y r))"
    by (auto simp: retained_def)
  then show "mset result = mset (filter (\<lambda>r. \<not> isNaN (r_x r) \<and> \<not> isNaN (r_y r)) (map the items))"
    unfolding r by (simp add: mset_js_sort)
next
  show "post_process (Array
        [Some \<lparr>r_text = t1, r_x = Num 5, r_y = Num 10, r_width = w1, r_height = h1\<rparr>,
         Some \<lparr>r_text = t2, r_x = Num 1, r_y = Num 10, r_width = w2, r_height = h2\<rparr>,
         Some \<lparr>r_text = t3, r_x = Num 0, r_y = Num 5, r_width = w3, r_height = h3\<rparr>,
         Some \<lparr>r_text = t4, r_x = NaN, r_y = Num 3, r_width = w4, r_height = h4\<rparr>])
     = Some
        [\<lparr>r_text = t3, r_x = Num 0, r_y = Num 5, r_width = w3, r_height = h3\<rparr>,
         \<lparr>r_text = t2, r_x = Num 1, r_y = Num 10, r_width = w2, r_height = h2\<rparr>,
         \<lparr>r_text = t1, r_x = Num 5, r_y = Num 10, r_width = w1, r_height = h1\<rparr>]"
    by (simp add: post_process_def filter_and_sort_def retained_def compare_regions_def
        strict_neq_def)
qed

theorem startOCR_sorts_by_y_then_x_witness:
  "post_process (Array
        [Some \<lparr>r_text = ''c'', r_x = Num 5, r_y = Num 10, r_width = Num 2, r_height = Num 1\<rparr>,
         Some \<lparr>r_text = ''b'', r_x = Num 1, r_y = Num 10, r_width = Num 2, r_height = Num 1\<rparr>,
         Some \<lparr>r_text = ''a'', r_x = Num 0, r_y = Num 5, r_width = Num 2, r_height = Num 1\<rparr>,
         Some \<lparr>r_text = ''d'', r_x = NaN, r_y = Num 3, r_width = Num 2, r_height = Num 1\<rparr>])
     = Some
        [\<lparr>r_text = ''a'', r_x = Num 0, r_y = Num 5, r_width = Num 2, r_height = Num 1\<rparr>,
         \<lparr>r_text = ''b'', r_x = Num 1, r_y = Num 10, r_width = Num 2, r_height = Num 1\<rparr>,
         \<lparr>r_text = ''c'', r_x = Num 5, r_y = Num 10, r_width = Num 2, r_height = Num 1\<rparr>]
   \<and> sorted_wrt reading_order
        [\<lparr>r_text = ''a'', r_x = Num 0, r_y = Num 5, r_width = Num 2, r_height = Num 1\<rparr>,
         \<lparr>r_text = ''b'', r_x = Num 1, r_y = Num 10, r_width = Num 2, r_height = Num 1\<rparr>,
         \<lparr>r_text = ''c'', r_x = Num 5, r_y = Num 10, r_width = Num 2, r_height = Num 1\<rparr>]"
proof -
  note t = startOCR_sorts_by_y_then_x [of "''c''" "Num 2" "Num 1" "''b''" "Num 2" "Num 1"
      "''a''" "Num 2" "Num 1" "''d''" "Num 2" "Num 1"]
  from t have p: "post_process (Array
        [Some \<lparr>r_text = ''c'', r_x = Num 5, r_y = Num 10, r_width = Num 2, r_height = Num 1\<rparr>,
         Some \<lparr>r_text = ''b'', r_x = Num 1, r_y = Num 10, r_width = Num 2, r_height = Num 1\<rparr>,
         Some \<lparr>r_text = ''a'', r_x = Num 0, r_y = Num 5, r_width = Num 2, r_height = Num 1\<rparr>,
         Some \<lparr>r_text = ''d'', r_x = NaN, r_y = Num 3, r_width = Num 2, r_height = Num 1\<rparr>])
     = Some
        [\<lparr>r_text = ''a'', r_x = Num 0, r_y = Num 5, r_width = Num 2, r_height = Num 1\<rparr>,
         \<lparr>r_text = ''b'', r_x = Num 1, r_y = Num 10, r_width = Num 2, r_height = Num 1\<rparr>,
         \<lparr>r_text = ''c'', r_x = Num 5, r_y = Num 10, r_width = Num 2, r_height = Num 1\<rparr>]"
    by (rule conjunct2)
  from t p show ?thesis by blast
qed


section \<open>The editor handle before the editor exists\<close>

text \<open>
  C10. While the hosted editor does not exist, \<open>getContent\<close> returns the empty string,
  \<open>isEmpty\<close> returns true, and \<open>appendContent\<close> and \<open>setContent\<close> make no call at all.
\<close>

theorem editor_handle_without_editor:
  "getContent None type = '''' \<and> isEmpty None = True
   \<and> appendContent None iframe_current html breakLine = []
   \<and> setContent None iframe_current html = []"
  by (simp add: getContent_def isEmpty_def appendContent_def setContent_def)

theorem editor_handle_without_editor_witness:
  "getContent None ''lake'' = '''' \<and> isEmpty None = True
   \<and> appendContent None True ''<p>x</p>'' True = []
   \<and> setContent None True ''<p>x</p>'' = []"
  using editor_handle_without_editor [of "''lake''" True "''<p>x</p>''" True] by simp


section \<open>Histories of the bridge host\<close>

lemmas host_eval =
  run_def init_def initial_def timeout_def on_message_def messageFunc_def invoke_def
  sendMessage_def sendMessageRef_call_def getRequestID_def js_incr_def id_key_def key_def
  ocrIframeId_def Let_def

lemma run_Nil: "run h [] = h"
  by (simp add: run_def)

lemma run_Cons: "run h (e # es) = run (step h e) es"
  by (simp add: run_def)

lemma run_snoc: "run h (es @ [e]) = step (run h es) e"
  by (simp add: run_def)

lemma run_append: "run h (es @ es') = run (run h es) es'"
  by (simp add: run_def)

lemma js_incr_ge: "n \<le> id_var h \<Longrightarrow> n \<le> js_incr (id_var h)"
  by (simp add: js_incr_def)

lemma id_key_inj: "id_key a = id_key b \<Longrightarrow> a = b"
  by (simp add: id_key_def)

text \<open>What one call of the transport function changes.\<close>

lemma sendMessageRef_call_snd:
  "snd (sendMessageRef_call h action data) =
     h\<lparr>promises := promises h @ [Pending],
       id_var := js_incr (id_var h),
       resolveCache := (resolveCache h)(id_key (js_incr (id_var h)) \<mapsto> length (promises h)),
       posted := (case iframe h of None \<Rightarrow> posted h
                  | Some f \<Rightarrow> posted h @ [\<lparr>q_key = key, q_requestId = js_incr (id_var h),
                        q_action = action, q_data = data\<rparr>])\<rparr>"
  by (simp add: sendMessageRef_call_def getRequestID_def Let_def split: option.splits)

lemma sendMessage_snd:
  "snd (sendMessage h action data) =
     (if sendMessageRef h then snd (sendMessageRef_call h action data) else h)"
  by (simp add: sendMessage_def split: prod.splits)

text \<open>A \<open>message\<close> event changes nothing, or it is an accepted envelope.\<close>

lemma on_message_cases:
  "on_message h d = h \<or>
   (\<exists>e. d = DataObject e \<and> listening h \<and> e_key e = key \<and>
      on_message h d =
        (let h1 = (case resolveCache h (e_requestId e) of
                     Some p \<Rightarrow> (invoke p e h)\<lparr>resolveCache := (resolveCache h)(e_requestId e := None)\<rparr>
                   | None \<Rightarrow> h)
         in if e_type e = JString ''ocr-ready''
            then h1\<lparr>sendMessageRef := True, init_promise := resolve True (init_promise h1)\<rparr>
            else h1))"
  by (cases d) (auto simp: on_message_def messageFunc_def Let_def)

lemma frames_ok_step: "frames_ok h \<Longrightarrow> frames_ok (step h e)"
proof (cases e)
  case CallInit
  assume "frames_ok h"
  then show ?thesis using CallInit
    by (auto simp: frames_ok_def init_def Let_def split: option.splits)
next
  case (CallSendMessage a d)
  assume "frames_ok h"
  then show ?thesis using CallSendMessage
    by (auto simp: frames_ok_def sendMessage_snd sendMessageRef_call_snd split: option.splits)
next
  case (Message d)
  assume "frames_ok h"
  then show ?thesis using Message on_message_cases [of h d]
    by (auto simp: frames_ok_def invoke_def Let_def split: option.splits if_splits)
next
  case Timeout
  assume "frames_ok h"
  then show ?thesis using Timeout
    by (auto simp: frames_ok_def timeout_def split: list.splits)
qed



lemma ids_ok_step:
  assumes "ids_ok h"
  shows "ids_ok (step h e)"
proof (cases e)
  case CallInit
  then show ?thesis using assms
    by (auto simp: ids_ok_def init_def Let_def split: option.splits)
next
  case (CallSendMessage a d)
  then show ?thesis using assms
    by (auto simp: ids_ok_def sendMessage_snd sendMessageRef_call_snd
        split: option.splits if_splits intro: js_incr_ge)
next
  case (Message d)
  then show ?thesis using assms on_message_cases [of h d]
    by (auto simp: ids_ok_def invoke_def Let_def split: option.splits if_splits)
next
  case Timeout
  then show ?thesis using assms
    by (auto simp: ids_ok_def timeout_def split: list.splits)
qed

text \<open>The invariants hold after every history of the freshly loaded module.\<close>

lemma reachable_frames_ok: "frames_ok (run (initial url) es)"
proof (induction es rule: rev_induct)
  case Nil
  show ?case by (simp add: run_Nil frames_ok_def initial_def)
next
  case (snoc e es)
  then show ?case by (simp add: run_snoc frames_ok_step)
qed


lemma reachable_ids_ok: "ids_ok (run (initial url) es)"
proof (induction es rule: rev_induct)
  case Nil
  show ?case by (simp add: run_Nil ids_ok_def initial_def)
next
  case (snoc e es)
  then show ?case by (simp add: run_snoc ids_ok_step)
qed


section \<open>Frame creation\<close>

text \<open>
  C8. However \<open>init\<close> is called, and whatever else happens in between, the document
  never holds a second frame: after every history it holds at most one, and a call of
  \<open>init\<close> made while \<open>this.iframe\<close> is set returns at once and changes nothing.
\<close>

theorem init_creates_one_frame:
  "length (body (run (initial url) es)) \<le> 1
   \<and> (iframe h \<noteq> None \<longrightarrow> init h = (InitUndefined, h))"
proof
  have "frames_ok (run (initial url) es)" by (rule reachable_frames_ok)
  then show "length (body (run (initial url) es)) \<le> 1"
    by (simp add: frames_ok_def split: option.splits)
  show "iframe h \<noteq> None \<longrightarrow> init h = (InitUndefined, h)"
    by (auto simp: init_def)
qed

theorem init_creates_one_frame_witness:
  "body (run (initial ''ocr.html'') [CallInit, CallInit])
     = [\<lparr>f_src = ''ocr.html'', f_id = ''yq-ocr-iframe-id'', f_display = ''none''\<rparr>]
   \<and> iframe (run (initial ''ocr.html'') [CallInit]) \<noteq> None
   \<and> init (run (initial ''ocr.html'') [CallInit])
       = (InitUndefined, run (initial ''ocr.html'') [CallInit])"
proof -
  have i: "iframe (run (initial ''ocr.html'') [CallInit]) \<noteq> None"
    by (simp add: host_eval)
  have b: "body (run (initial ''ocr.html'') [CallInit, CallInit])
     = [\<lparr>f_src = ''ocr.html'', f_id = ''yq-ocr-iframe-id'', f_display = ''none''\<rparr>]"
    by (simp add: host_eval)
  from init_creates_one_frame [of "''ocr.html''" "[CallInit, CallInit]"
      "run (initial ''ocr.html'') [CallInit]"] i b
  show ?thesis by blast
qed


section \<open>Dispatch of responses\<close>






section \<open>Request identifiers\<close>

lemma id_var_step: "id_var h \<le> id_var (step h e)"
proof (cases e)
  case CallInit
  then show ?thesis by (auto simp: init_def Let_def split: option.splits)
next
  case (CallSendMessage a d)
  then show ?thesis
    by (auto simp: sendMessage_snd sendMessageRef_call_snd js_incr_def)
next
  case (Message d)
  then show ?thesis using on_message_cases [of h d]
    by (auto simp: invoke_def Let_def split: option.splits if_splits)
next
  case Timeout
  then show ?thesis by (auto simp: timeout_def split: list.splits)
qed

text \<open>An event posts nothing, or one request that carries the next id.\<close>

lemma posted_step:
  "posted (step h e) = posted h \<or>
   (\<exists>a d. posted (step h e) =
      posted h @ [\<lparr>q_key = key, q_requestId = js_incr (id_var h), q_action = a, q_data = d\<rparr>])"
proof (cases e)
  case CallInit
  then show ?thesis by (auto simp: init_def Let_def split: option.splits)
next
  case (CallSendMessage a d)
  then show ?thesis
    by (auto simp: sendMessage_snd sendMessageRef_call_snd split: option.splits)
next
  case (Message d)
  then show ?thesis using on_message_cases [of h d]
    by (auto simp: invoke_def Let_def split: option.splits if_splits)
next
  case Timeout
  then show ?thesis by (auto simp: timeout_def split: list.splits)
qed

lemma reachable_ids_increasing:
  "id_var (run (initial url) es) < 2 ^ 53 \<Longrightarrow>
     sorted_wrt (<) (map q_requestId (posted (run (initial url) es)))"
proof (induction es rule: rev_induct)
  case Nil
  show ?case by (simp add: run_Nil initial_def)
next
  case (snoc e es)
  let ?h = "run (initial url) es"
  have le: "id_var ?h \<le> id_var (step ?h e)" by (rule id_var_step)
  with snoc.prems have lt: "id_var ?h < 2 ^ 53" by (simp add: run_snoc)
  then have s: "sorted_wrt (<) (map q_requestId (posted ?h))" by (rule snoc.IH)
  have old: "\<forall>q \<in> set (posted ?h). q_requestId q \<le> id_var ?h"
    using reachable_ids_ok [of url es] by (simp add: ids_ok_def)
  from posted_step [of ?h e] show ?case
  proof
    assume "posted (step ?h e) = posted ?h"
    then show ?thesis using s by (simp add: run_snoc)
  next
    assume "\<exists>a d. posted (step ?h e) =
      posted ?h @ [\<lparr>q_key = key, q_requestId = js_incr (id_var ?h), q_action = a, q_data = d\<rparr>]"
    moreover have "\<forall>q \<in> set (posted ?h). q_requestId q < Suc (id_var ?h)"
      using old by (auto simp: less_Suc_eq_le)
    ultimately show ?thesis using s lt
      by (auto simp: run_snoc sorted_wrt_append js_incr_def)
  qed
qed


text \<open>
  C9, as amended. After any history that leaves the counter below \<open>2^53\<close>, the next
  request id is the counter plus one: it is greater than every id posted so far and is
  not a key of the table, so that storing its callback replaces no pending entry; and the
  ids posted so far are strictly increasing, hence distinct.
\<close>

theorem request_ids_increase_below_2_53:
  assumes "h = run (initial url) es"
    and "id_var h < 2 ^ 53"
  shows "fst (getRequestID h) = id_var h + 1
       \<and> id_var (snd (getRequestID h)) = fst (getRequestID h)
       \<and> (\<forall>q \<in> set (posted h). q_requestId q < fst (getRequestID h))
       \<and> resolveCache h (id_key (fst (getRequestID h))) = None
       \<and> sorted_wrt (<) (map q_requestId (posted h))"
proof -
  have g: "fst (getRequestID h) = id_var h + 1"
    using assms(2) by (simp add: getRequestID_def js_incr_def Let_def)
  have v: "id_var (snd (getRequestID h)) = fst (getRequestID h)"
    by (simp add: getRequestID_def Let_def)
  have ok: "ids_ok h" using assms(1) reachable_ids_ok by simp
  then have old: "\<forall>q \<in> set (posted h). q_requestId q < fst (getRequestID h)"
    unfolding g ids_ok_def by auto
  have "resolveCache h (id_key (id_var h + 1)) = None"
  proof (cases "resolveCache h (id_key (id_var h + 1))")
    case None
    then show ?thesis .
  next
    case (Some p)
    then obtain n where "id_key (id_var h + 1) = id_key n" "n \<le> id_var h"
      using ok unfolding ids_ok_def by blast
    then show ?thesis using id_key_inj by fastforce
  qed
  moreover have "sorted_wrt (<) (map q_requestId (posted h))"
    using assms reachable_ids_increasing by simp
  ultimately show ?thesis using g v old by simp
qed

theorem request_ids_increase_below_2_53_witness:
  "id_var (run (initial ''ocr.html'')
        [CallInit,
         Message (DataObject \<lparr>e_key = key, e_requestId = JUndefined,
                    e_type = JString ''ocr-ready'', e_data = Falsy\<rparr>),
         CallSendMessage ''isWebOcrReady'' NoData,
         CallSendMessage ''startOcr'' (OcrInput KUrl ''a.png'')]) = 2
   \<and> fst (getRequestID (run (initial ''ocr.html'')
        [CallInit,
         Message (DataObject \<lparr>e_key = key, e_requestId = JUndefined,
                    e_type = JString ''ocr-ready'', e_data = Falsy\<rparr>),
         CallSendMessage ''isWebOcrReady'' NoData,
         CallSendMessage ''startOcr'' (OcrInput KUrl ''a.png'')])) = 3
   \<and> map q_requestId (posted (run (initial ''ocr.html'')
        [CallInit,
         Message (DataObject \<lparr>e_key = key, e_requestId = JUndefined,
                    e_type = JString ''ocr-ready'', e_data = Falsy\<rparr>),
         CallSendMessage ''isWebOcrReady'' NoData,
         CallSendMessage ''startOcr'' (OcrInput KUrl ''a.png'')])) = [1, 2]"
proof -
  have i: "id_var (run (initial ''ocr.html'')
        [CallInit,
         Message (DataObject \<lparr>e_key = key, e_requestId = JUndefined,
                    e_type = JString ''ocr-ready'', e_data = Falsy\<rparr>),
         CallSendMessage ''isWebOcrReady'' NoData,
         CallSendMessage ''startOcr'' (OcrInput KUrl ''a.png'')]) = 2"
    by (simp add: host_eval)
  then have b: "id_var (run (initial ''ocr.html'')
        [CallInit,
         Message (DataObject \<lparr>e_key = key, e_requestId = JUndefined,
                    e_type = JString ''ocr-ready'', e_data = Falsy\<rparr>),
         CallSendMessage ''isWebOcrReady'' NoData,
         CallSendMessage ''startOcr'' (OcrInput KUrl ''a.png'')]) < 2 ^ 53"
    by simp
  have p: "map q_requestId (posted (run (initial ''ocr.html'')
        [CallInit,
         Message (DataObject \<lparr>e_key = key, e_requestId = JUndefined,
                    e_type = JString ''ocr-ready'', e_data = Falsy\<rparr>),
         CallSendMessage ''isWebOcrReady'' NoData,
         CallSendMessage ''startOcr'' (OcrInput KUrl ''a.png'')])) = [1, 2]"
    by (simp add: host_eval)
  from request_ids_increase_below_2_53 [OF refl b] i p show ?thesis by simp
qed

text \<open>The ids posted by \<open>n\<close> requests in a row, once the transport is installed.\<close>

lemma send_many:
  assumes "sendMessageRef h" "iframe h = Some f" "id_var h \<le> 2 ^ 53"
  shows "sendMessageRef (run h (replicate n (CallSendMessage a d)))
       \<and> iframe (run h (replicate n (CallSendMessage a d))) = Some f
       \<and> id_var (run h (replicate n (CallSendMessage a d))) = min (id_var h + n) (2 ^ 53)
       \<and> map q_requestId (posted (run h (replicate n (CallSendMessage a d))))
           = map q_requestId (posted h) @ map (\<lambda>k. min (id_var h + k) (2 ^ 53)) [1..<Suc n]"
proof (induction n)
  case 0
  show ?case using assms by (simp add: run_Nil)
next
  case (Suc n)
  let ?h = "run h (replicate n (CallSendMessage a d))"
  have "replicate (Suc n) (CallSendMessage a d)
      = replicate n (CallSendMessage a d) @ [CallSendMessage a d]"
    by (simp add: replicate_append_same)
  then have r: "run h (replicate (Suc n) (CallSendMessage a d)) = step ?h (CallSendMessage a d)"
    by (simp only: run_snoc)
  have i: "js_incr (min (id_var h + n) (2 ^ 53)) = min (id_var h + Suc n) (2 ^ 53)"
    by (simp add: js_incr_def min_def)
  show ?case
    unfolding r using Suc i
    by (simp add: sendMessage_snd sendMessageRef_call_snd)
qed

text \<open>
  C9, as stated, fails. The counter is a double, and a double cannot hold \<open>2^53 + 1\<close>:
  once the frame is ready, \<open>2^53 + 1\<close> requests in a row post ids that are not strictly
  increasing, the last two both being \<open>2^53\<close>.
\<close>

theorem request_id_repeats_after_2_53:
  "\<not> sorted_wrt (<)
       (map q_requestId
          (posted (run (initial ''ocr.html'')
             ([CallInit,
               Message (DataObject \<lparr>e_key = key, e_requestId = JUndefined,
                          e_type = JString ''ocr-ready'', e_data = Falsy\<rparr>)]
              @ replicate (2 ^ 53 + 1) (CallSendMessage ''isWebOcrReady'' NoData)))))"
proof -
  define h where "h = run (initial ''ocr.html'')
             [CallInit,
               Message (DataObject \<lparr>e_key = key, e_requestId = JUndefined,
                          e_type = JString ''ocr-ready'', e_data = Falsy\<rparr>)]"
  define N :: nat where "N = 2 ^ 53"
  have h: "sendMessageRef h"
    "iframe h = Some \<lparr>f_src = ''ocr.html'', f_id = ocrIframeId, f_display = ''none''\<rparr>"
    "id_var h = 0" "posted h = []"
    by (simp_all add: h_def run_def init_def initial_def on_message_def messageFunc_def
        Let_def key_def)
  have "map q_requestId
          (posted (run h (replicate (N + 1) (CallSendMessage ''isWebOcrReady'' NoData))))
      = map (\<lambda>k. min k N) [1..<Suc (N + 1)]"
    using send_many [of h _ "N + 1" "''isWebOcrReady''" NoData] h
    unfolding N_def by simp
  moreover have "\<not> sorted_wrt (<) (map (\<lambda>k. min k N) [1..<Suc (N + 1)])"
  proof
    assume s: "sorted_wrt (<) (map (\<lambda>k. min k N) [1..<Suc (N + 1)])"
    have N1: "1 \<le> N" by (simp add: N_def)
    have "map (\<lambda>k. min k N) [1..<Suc (N + 1)] ! (N - 1)
        < map (\<lambda>k. min k N) [1..<Suc (N + 1)] ! N"
      using N1 by (intro sorted_wrt_nth_less [OF s]) auto
    then show False using N1 by (simp del: upt_Suc)
  qed
  ultimately show ?thesis
    unfolding h_def N_def run_append [symmetric] by simp
qed


section \<open>Initialization and readiness\<close>

text \<open>What one event does to the promise of \<open>init\<close>.\<close>

lemma init_promise_step:
  "init_promise (step h e) =
     (if iframe h = None \<and> e = CallInit then Pending
      else if listening h \<and> is_ready e then resolve True (init_promise h)
      else if e = Timeout \<and> timers h \<noteq> [] then resolve False (init_promise h)
      else init_promise h)"
proof (cases e)
  case CallInit
  then show ?thesis by (auto simp: init_def Let_def split: option.splits)
next
  case (CallSendMessage a d)
  then show ?thesis
    by (auto simp: sendMessage_snd sendMessageRef_call_snd)
next
  case (Message d)
  then show ?thesis
    by (cases d)
       (auto simp: on_message_def messageFunc_def invoke_def Let_def split: option.splits)
next
  case Timeout
  then show ?thesis by (auto simp: timeout_def split: list.splits)
qed

text \<open>Once the frame exists it stays, the listener stays, and only the timeout uses up a timer.\<close>

lemma frame_step:
  "iframe h \<noteq> None \<Longrightarrow> listening h \<Longrightarrow>
     iframe (step h e) \<noteq> None \<and> listening (step h e)
     \<and> timers (step h e) = (if e = Timeout then tl (timers h) else timers h)"
proof (cases e)
  case CallInit
  assume "iframe h \<noteq> None" "listening h"
  then show ?thesis using CallInit by (auto simp: init_def Let_def split: option.splits)
next
  case (CallSendMessage a d)
  assume "iframe h \<noteq> None" "listening h"
  then show ?thesis using CallSendMessage
    by (auto simp: sendMessage_snd sendMessageRef_call_snd)
next
  case (Message d)
  assume "iframe h \<noteq> None" "listening h"
  then show ?thesis using Message on_message_cases [of h d]
    by (auto simp: invoke_def Let_def split: option.splits if_splits)
next
  case Timeout
  assume "iframe h \<noteq> None" "listening h"
  then show ?thesis using Timeout by (auto simp: timeout_def split: list.splits)
qed

lemma settled_run:
  "iframe h \<noteq> None \<Longrightarrow> listening h \<Longrightarrow> init_promise h = Resolved v \<Longrightarrow>
     init_promise (run h es) = Resolved v"
proof (induction es arbitrary: h)
  case Nil
  then show ?case by (simp add: run_Nil)
next
  case (Cons e es)
  have "init_promise (step h e) = Resolved v"
    using Cons.prems by (simp add: init_promise_step)
  then show ?case using Cons.prems Cons.IH [of "step h e"] frame_step [of h e]
    by (simp add: run_Cons)
qed

lemma pending_run:
  "iframe h \<noteq> None \<Longrightarrow> listening h \<Longrightarrow> init_promise h = Pending \<Longrightarrow> timers h \<noteq> [] \<Longrightarrow>
     init_promise (run h es) = first_settled es"
proof (induction es arbitrary: h)
  case Nil
  then show ?case by (simp add: run_Nil)
next
  case (Cons e es)
  note fs = frame_step [OF Cons.prems(1,2), of e]
  show ?case
  proof (cases "is_ready e \<or> e = Timeout")
    case True
    then have "init_promise (step h e) = Resolved (is_ready e)"
      using Cons.prems by (auto simp: init_promise_step)
    then have "init_promise (run (step h e) es) = Resolved (is_ready e)"
      using fs settled_run by blast
    then show ?thesis using True by (auto simp: run_Cons)
  next
    case False
    then have "init_promise (step h e) = Pending" "timers (step h e) \<noteq> []"
      using Cons.prems fs by (auto simp: init_promise_step)
    then have "init_promise (run (step h e) es) = first_settled es"
      using fs Cons.IH by blast
    then show ?thesis using False by (simp add: run_Cons)
  qed
qed

text \<open>Until \<open>init\<close> is called for the first time nothing changes the module's state.\<close>

lemma before_first_init:
  "CallInit \<notin> set es \<Longrightarrow> run (initial url) es = initial url"
proof (induction es rule: rev_induct)
  case Nil
  show ?case by (simp add: run_Nil)
next
  case (snoc e es)
  then have "run (initial url) es = initial url" and "e \<noteq> CallInit" by auto
  then show ?case
    by (cases e)
       (simp_all add: run_snoc on_message_def timeout_def sendMessage_def initial_def)
qed

text \<open>
  C2, as amended. The first call of \<open>init\<close> returns a new promise and sets one timeout,
  of 30000 milliseconds. Through every later history that promise is settled by
  whichever comes first, an envelope with the bridge's key and of type \<open>"ocr-ready"\<close>
  (it resolves \<open>true\<close>) or the timeout (it resolves \<open>false\<close>), and by nothing after it; until
  one of them comes it stays pending.
\<close>

theorem init_promise_settles_once:
  "fst (init (initial url)) = InitPromise
   \<and> timers (snd (init (initial url))) = [1000 * 30]
   \<and> init_promise (run (snd (init (initial url))) es) = first_settled es"
proof -
  have "init_promise (run (snd (init (initial url))) es) = first_settled es"
    by (rule pending_run) (simp_all add: init_def initial_def Let_def)
  then show ?thesis by (simp add: init_def initial_def Let_def)
qed

theorem init_promise_settles_once_witness:
  "init_promise (run (snd (init (initial ''ocr.html'')))
      [Message (DataObject \<lparr>e_key = JString ''other'', e_requestId = JUndefined,
                  e_type = JString ''ocr-ready'', e_data = Falsy\<rparr>),
       Message (DataObject \<lparr>e_key = key, e_requestId = JUndefined,
                  e_type = JString ''ocr-ready'', e_data = Falsy\<rparr>),
       Timeout]) = Resolved True
   \<and> init_promise (run (snd (init (initial ''ocr.html'')))
      [Timeout,
       Message (DataObject \<lparr>e_key = key, e_requestId = JUndefined,
                  e_type = JString ''ocr-ready'', e_data = Falsy\<rparr>)]) = Resolved False"
  using init_promise_settles_once [of "''ocr.html''"
      "[Message (DataObject \<lparr>e_key = JString ''other'', e_requestId = JUndefined,
                  e_type = JString ''ocr-ready'', e_data = Falsy\<rparr>),
       Message (DataObject \<lparr>e_key = key, e_requestId = JUndefined,
                  e_type = JString ''ocr-ready'', e_data = Falsy\<rparr>),
       Timeout]"]
    init_promise_settles_once [of "''ocr.html''"
      "[Timeout,
       Message (DataObject \<lparr>e_key = key, e_requestId = JUndefined,
                  e_type = JString ''ocr-ready'', e_data = Falsy\<rparr>)]"]
  by (simp add: key_def)

text \<open>
  C2, as stated, fails: an envelope with the bridge's key and of type \<open>"ready"\<close> arrives
  first and the promise of \<open>init\<close> is still pending, not resolved \<open>true\<close>.
\<close>

theorem init_ignores_type_ready:
  "init_promise (run (snd (init (initial ''ocr.html'')))
      [Message (DataObject \<lparr>e_key = key, e_requestId = JUndefined,
                  e_type = JString ''ready'', e_data = Falsy\<rparr>)]) = Pending"
  by (simp add: host_eval)


section \<open>Requests without a transport\<close>

lemma no_transport_step:
  "\<not> sendMessageRef h \<Longrightarrow> \<not> is_ready e \<Longrightarrow> \<not> sendMessageRef (step h e)"
proof (cases e)
  case CallInit
  assume "\<not> sendMessageRef h"
  then show ?thesis using CallInit by (auto simp: init_def Let_def split: option.splits)
next
  case (CallSendMessage a d)
  assume "\<not> sendMessageRef h"
  then show ?thesis using CallSendMessage by (simp add: sendMessage_snd)
next
  case (Message d)
  assume "\<not> sendMessageRef h" "\<not> is_ready e"
  then show ?thesis using Message
    by (cases d)
       (auto simp: on_message_def messageFunc_def invoke_def Let_def split: option.splits)
next
  case Timeout
  assume "\<not> sendMessageRef h"
  then show ?thesis using Timeout by (auto simp: timeout_def split: list.splits)
qed

lemma no_transport_run:
  "\<not> sendMessageRef h \<Longrightarrow> \<forall>e \<in> set es. \<not> is_ready e \<Longrightarrow> \<not> sendMessageRef (run h es)"
  by (induction es arbitrary: h) (simp_all add: run_Nil run_Cons no_transport_step)

lemma first_settled_timeout:
  "\<forall>e \<in> set es. \<not> is_ready e \<Longrightarrow> Timeout \<in> set es \<Longrightarrow> first_settled es = Resolved False"
  by (induction es) auto

text \<open>
  C5, as amended. While \<open>this.sendMessageRef\<close> is not set, \<open>sendMessage\<close> returns
  \<open>undefined\<close> and changes nothing; it has no way to throw. In particular, after any
  history that follows the first \<open>init\<close> and in which no readiness signal has arrived, a
  request yields \<open>undefined\<close>, and if the timeout has fired the promise of \<open>init\<close> is
  resolved \<open>false\<close>.
\<close>

theorem request_without_transport_is_undefined:
  "(\<not> sendMessageRef h \<longrightarrow> sendMessage h action data = (None, h))
   \<and> ((\<forall>e \<in> set es. \<not> is_ready e) \<longrightarrow>
        sendMessage (run (snd (init (initial url))) es) action data
          = (None, run (snd (init (initial url))) es)
        \<and> (Timeout \<in> set es \<longrightarrow>
             init_promise (run (snd (init (initial url))) es) = Resolved False))"
proof (intro conjI impI)
  assume "\<not> sendMessageRef h"
  then show "sendMessage h action data = (None, h)" by (simp add: sendMessage_def)
next
  assume n: "\<forall>e \<in> set es. \<not> is_ready e"
  have "\<not> sendMessageRef (snd (init (initial url)))"
    by (simp add: init_def initial_def Let_def)
  then have "\<not> sendMessageRef (run (snd (init (initial url))) es)"
    using n by (rule no_transport_run)
  then show "sendMessage (run (snd (init (initial url))) es) action data
          = (None, run (snd (init (initial url))) es)"
    by (simp add: sendMessage_def)
next
  assume n: "\<forall>e \<in> set es. \<not> is_ready e" and t: "Timeout \<in> set es"
  have "init_promise (run (snd (init (initial url))) es) = first_settled es"
    by (rule pending_run) (simp_all add: init_def initial_def Let_def)
  then show "init_promise (run (snd (init (initial url))) es) = Resolved False"
    using n t by (simp add: first_settled_timeout)
qed

theorem request_without_transport_is_undefined_witness:
  "\<not> sendMessageRef (initial ''ocr.html'')
   \<and> sendMessage (initial ''ocr.html'') ''isWebOcrReady'' NoData = (None, initial ''ocr.html'')
   \<and> sendMessage
       (run (snd (init (initial ''ocr.html'')))
          [Message (DataObject \<lparr>e_key = key, e_requestId = id_key 1,
                      e_type = JString ''ready'', e_data = Falsy\<rparr>),
           Timeout])
       ''isWebOcrReady'' NoData
       = (None,
          run (snd (init (initial ''ocr.html'')))
            [Message (DataObject \<lparr>e_key = key, e_requestId = id_key 1,
                        e_type = JString ''ready'', e_data = Falsy\<rparr>),
             Timeout])
   \<and> init_promise
       (run (snd (init (initial ''ocr.html'')))
          [Message (DataObject \<lparr>e_key = key, e_requestId = id_key 1,
                      e_type = JString ''ready'', e_data = Falsy\<rparr>),
           Timeout]) = Resolved False"
proof -
  have s: "\<not> sendMessageRef (initial ''ocr.html'')"
    by (simp add: initial_def)
  have n: "\<forall>e \<in> set [Message (DataObject \<lparr>e_key = key, e_requestId = id_key 1,
                    e_type = JString ''ready'', e_data = Falsy\<rparr>), Timeout]. \<not> is_ready e"
    by simp
  have t: "Timeout \<in> set [Message (DataObject \<lparr>e_key = key, e_requestId = id_key 1,
                    e_type = JString ''ready'', e_data = Falsy\<rparr>), Timeout]"
    by simp
  from request_without_transport_is_undefined [of "initial ''ocr.html''" "''isWebOcrReady''"
      NoData "[Message (DataObject \<lparr>e_key = key, e_requestId = id_key 1,
                    e_type = JString ''ready'', e_data = Falsy\<rparr>), Timeout]" "''ocr.html''"]
    s n t
  show ?thesis by blast
qed


text \<open>
  C5, as stated, fails in its second part. No readiness signal arrives before the
  timeout, so the promise of \<open>init\<close> resolves \<open>false\<close>; the listener stays registered, a
  readiness signal that arrives afterwards installs the transport, and the next request
  returns a promise and is posted, instead of yielding \<open>undefined\<close>.
\<close>

theorem late_ready_installs_transport:
  "init_promise
     (run (snd (init (initial ''ocr.html'')))
        [Timeout,
         Message (DataObject \<lparr>e_key = key, e_requestId = JUndefined,
                    e_type = JString ''ocr-ready'', e_data = Falsy\<rparr>)]) = Resolved False
   \<and> fst (sendMessage
       (run (snd (init (initial ''ocr.html'')))
          [Timeout,
           Message (DataObject \<lparr>e_key = key, e_requestId = JUndefined,
                      e_type = JString ''ocr-ready'', e_data = Falsy\<rparr>)])
       ''isWebOcrReady'' NoData) = Some 0
   \<and> map q_action (posted (snd (sendMessage
       (run (snd (init (initial ''ocr.html'')))
          [Timeout,
           Message (DataObject \<lparr>e_key = key, e_requestId = JUndefined,
                      e_type = JString ''ocr-ready'', e_data = Falsy\<rparr>)])
       ''isWebOcrReady'' NoData))) = [''isWebOcrReady'']"
  by (simp add: host_eval)


section \<open>\<open>startOCR\<close>: the readiness check and the swallowed exception\<close>




text \<open>
  The readiness check yields \<open>undefined\<close> when no request could be sent; \<open>startOCR\<close>
  then returns the empty list and leaves the host as it was.
\<close>

lemma startOCR_without_request_returns_empty:
  "resume type content h (AwaitIsWebOcrReady None) = (Returned (Some []), h)"
  by (simp add: await_def)

text \<open>That is the only way in which \<open>startOCR\<close> returns at the readiness check.\<close>

lemma startOCR_gate_closes_iff_no_request:
  "(fst (resume type content h (AwaitIsWebOcrReady p)) = Returned (Some [])) = (p = None)"
proof (cases p)
  case None
  then show ?thesis by (simp add: await_def)
next
  case (Some n)
  show ?thesis
  proof (cases "await h (Some n)")
    case Pending
    then show ?thesis using Some by simp
  next
    case (Resolved isReady)
    then obtain e where "isReady = Envelope e"
      by (auto simp: await_def split: if_splits promise.splits)
    then show ?thesis using Some Resolved by (simp add: case_prod_beta)
  qed
qed



text \<open>
  C7, as amended. When the response to \<open>"startOcr"\<close> has arrived, an exception raised by
  the filtering and sorting is caught: \<open>startOCR\<close> then returns \<open>undefined\<close>, and the
  host is unchanged. When no exception is raised it returns the sorted list. So
  \<open>undefined\<close> is returned for an error only, and an empty result is the empty list.
\<close>

theorem startOCR_swallows_exception:
  assumes "await h q = Resolved res"
  shows "(filter_and_sort (ocrResult_of res) = Inl e \<longrightarrow>
            resume type content h (AwaitStartOcr q) = (Returned None, h))
       \<and> (filter_and_sort (ocrResult_of res) = Inr result \<longrightarrow>
            resume type content h (AwaitStartOcr q) = (Returned (Some result), h))"
  using assms by (simp add: post_process_def)

theorem startOCR_swallows_exception_witness:
  "await
     (run (initial ''ocr.html'')
        [CallInit,
         Message (DataObject \<lparr>e_key = key, e_requestId = JUndefined,
                    e_type = JString ''ocr-ready'', e_data = Falsy\<rparr>),
         CallSendMessage ''startOcr'' (OcrInput KUrl ''a.png''),
         Message (DataObject \<lparr>e_key = key, e_requestId = id_key 1,
                    e_type = JUndefined, e_data = Array [None]\<rparr>)])
     (Some 0)
     = Resolved (Envelope \<lparr>e_key = key, e_requestId = id_key 1,
                    e_type = JUndefined, e_data = Array [None]\<rparr>)
   \<and> filter_and_sort (ocrResult_of (Envelope \<lparr>e_key = key, e_requestId = id_key 1,
                    e_type = JUndefined, e_data = Array [None]\<rparr>)) = Inl TypeError
   \<and> resume KUrl ''a.png''
       (run (initial ''ocr.html'')
        [CallInit,
         Message (DataObject \<lparr>e_key = key, e_requestId = JUndefined,
                    e_type = JString ''ocr-ready'', e_data = Falsy\<rparr>),
         CallSendMessage ''startOcr'' (OcrInput KUrl ''a.png''),
         Message (DataObject \<lparr>e_key = key, e_requestId = id_key 1,
                    e_type = JUndefined, e_data = Array [None]\<rparr>)])
       (AwaitStartOcr (Some 0))
     = (Returned None,
        run (initial ''ocr.html'')
        [CallInit,
         Message (DataObject \<lparr>e_key = key, e_requestId = JUndefined,
                    e_type = JString ''ocr-ready'', e_data = Falsy\<rparr>),
         CallSendMessage ''startOcr'' (OcrInput KUrl ''a.png''),
         Message (DataObject \<lparr>e_key = key, e_requestId = id_key 1,
                    e_type = JUndefined, e_data = Array [None]\<rparr>)])"
proof -
  have a: "await
     (run (initial ''ocr.html'')
        [CallInit,
         Message (DataObject \<lparr>e_key = key, e_requestId = JUndefined,
                    e_type = JString ''ocr-ready'', e_data = Falsy\<rparr>),
         CallSendMessage ''startOcr'' (OcrInput KUrl ''a.png''),
         Message (DataObject \<lparr>e_key = key, e_requestId = id_key 1,
                    e_type = JUndefined, e_data = Array [None]\<rparr>)])
     (Some 0)
     = Resolved (Envelope \<lparr>e_key = key, e_requestId = id_key 1,
                    e_type = JUndefined, e_data = Array [None]\<rparr>)"
    by (simp add: await_def host_eval)
  have f: "filter_and_sort (ocrResult_of (Envelope \<lparr>e_key = key, e_requestId = id_key 1,
                    e_type = JUndefined, e_data = Array [None]\<rparr>)) = Inl TypeError"
    by (simp add: filter_and_sort_def ocrResult_of_def)
  from startOCR_swallows_exception [OF a, of TypeError KUrl "''a.png''"] a f
  show ?thesis by blast
qed

text \<open>
  C7, as stated, fails in its last part: a list with a \<open>null\<close> element makes the filter
  throw and the outcome is \<open>undefined\<close>, an empty list gives the empty list, and the two
  outcomes differ.
\<close>

theorem startOCR_error_differs_from_empty:
  "post_process (Array [None]) = None \<and> post_process (Array []) = Some []
   \<and> post_process (Array [None]) \<noteq> post_process (Array [])"
  by (simp add: post_process_def filter_and_sort_def)

end
